theory Spec2Isabelle
  imports Main "HOL-Library.AList"
begin

section \<open>Paths: the \<open>node:path\<close> operations the watcher calls\<close>

text \<open>
  \<open>FileWatcher.ts\<close> builds its strings with \<open>path.dirname\<close>, \<open>path.basename\<close>,
  \<open>path.extname\<close>, \<open>path.relative\<close>, \<open>path.resolve\<close> and \<open>path.join\<close> of Node.js.
  They are library code, not part of the repository; they are modelled here with their
  POSIX behaviour (separator \<open>/\<close>), the platform the source itself assumes when it writes
  \<open>${this.baseDir}/\<close>. They only look at the separator and the dot, so a string may be
  read in any encoding that keeps these two characters apart from the others.
\<close>

definition slash :: char where
  "slash = CHR ''/''"

definition dot :: char where
  "dot = CHR ''.''"

text \<open>Splitting at every separator, and joining again.\<close>

fun split_sep :: "string \<Rightarrow> string list" where
  "split_sep [] = [[]]"
| "split_sep (c # cs) =
     (if c = slash then [] # split_sep cs
      else (case split_sep cs of
              [] \<Rightarrow> [[c]]
            | s # ss \<Rightarrow> (c # s) # ss))"

fun join_sep :: "string list \<Rightarrow> string" where
  "join_sep [] = []"
| "join_sep [s] = s"
| "join_sep (s # t # ss) = s @ [slash] @ join_sep (t # ss)"

text \<open>
  \<open>normalizeString(path, allowAboveRoot)\<close>: empty segments and \<open>.\<close> are skipped, \<open>..\<close>
  removes the last kept segment unless there is none or it is \<open>..\<close> itself, in which case
  it is kept only when \<open>allowAboveRoot\<close>. The kept segments are held newest first.
\<close>

fun normalize_step :: "bool \<Rightarrow> string list \<Rightarrow> string \<Rightarrow> string list" where
  "normalize_step allowAboveRoot kept seg =
     (if seg = [] \<or> seg = ''.'' then kept
      else if seg = ''..'' then
        (case kept of
           [] \<Rightarrow> (if allowAboveRoot then [''..''] else [])
         | k # ks \<Rightarrow> (if k = ''..'' then (if allowAboveRoot then ''..'' # kept else kept) else ks))
      else seg # kept)"

definition normalizeSegments :: "bool \<Rightarrow> string \<Rightarrow> string list" where
  "normalizeSegments allowAboveRoot p =
     rev (foldl (normalize_step allowAboveRoot) [] (split_sep p))"

definition normalizeString :: "bool \<Rightarrow> string \<Rightarrow> string" where
  "normalizeString allowAboveRoot p = join_sep (normalizeSegments allowAboveRoot p)"

definition isAbsolute :: "string \<Rightarrow> bool" where
  "isAbsolute p = (case p of [] \<Rightarrow> False | c # _ \<Rightarrow> c = slash)"

text \<open>\<open>path.normalize\<close>.\<close>

definition normalize :: "string \<Rightarrow> string" where
  "normalize p =
     (if p = [] then ''.''
      else
        (let trailingSeparator = (last p = slash);
             q = normalizeString (\<not> isAbsolute p) p
         in if q = [] then
              (if isAbsolute p then ''/'' else if trailingSeparator then ''./'' else ''.'')
            else
              (let q' = (if trailingSeparator then q @ ''/'' else q)
               in if isAbsolute p then slash # q' else q')))"

text \<open>\<open>path.join\<close>: the non-empty arguments, joined by the separator, normalised.\<close>

definition join :: "string list \<Rightarrow> string" where
  "join args =
     (let parts = filter (\<lambda>a. a \<noteq> []) args
      in if parts = [] then ''.'' else normalize (join_sep parts))"

text \<open>
  \<open>path.resolve\<close>: arguments are prepended from the right until one is absolute; the
  working directory \<open>cwd\<close> is used when none is. Empty arguments are skipped.
\<close>

fun resolve_prepend :: "string list \<Rightarrow> string \<Rightarrow> string" where
  "resolve_prepend [] resolvedPath = resolvedPath"
| "resolve_prepend (a # as) resolvedPath =
     (if a = [] then resolve_prepend as resolvedPath
      else if isAbsolute a then a @ [slash] @ resolvedPath
      else resolve_prepend as (a @ [slash] @ resolvedPath))"

definition resolve :: "string \<Rightarrow> string list \<Rightarrow> string" where
  "resolve cwd args =
     (let resolvedPath = resolve_prepend (rev args @ [cwd]) [];
          resolvedAbsolute = isAbsolute resolvedPath;
          q = normalizeString (\<not> resolvedAbsolute) resolvedPath
      in if resolvedAbsolute then slash # q
         else if q \<noteq> [] then q else ''.'')"

text \<open>
  \<open>path.dirname\<close>: trailing separators are dropped (the first character is never
  examined), then the last segment; the result is the text before the separator that
  precedes it. Without such a separator the result is \<open>/\<close> for a rooted path and \<open>.\<close>
  otherwise; \<open>//\<close> is kept when the separator found is the second character of a rooted path.
\<close>

definition dirname :: "string \<Rightarrow> string" where
  "dirname p =
     (if p = [] then ''.''
      else
        (let hasRoot = (hd p = slash);
             body = rev (tl p);
             seg = dropWhile (\<lambda>c. c = slash) body;
             rest = dropWhile (\<lambda>c. c \<noteq> slash) seg
         in if rest = [] then (if hasRoot then ''/'' else ''.'')
            else if hasRoot \<and> length rest = 1 then ''//''
            else hd p # rev (tl rest)))"

text \<open>\<open>path.basename\<close> without a suffix: the last segment, trailing separators dropped.\<close>

definition basename :: "string \<Rightarrow> string" where
  "basename p =
     rev (takeWhile (\<lambda>c. c \<noteq> slash) (dropWhile (\<lambda>c. c = slash) (rev p)))"

text \<open>
  \<open>path.extname\<close>: from the last \<open>.\<close> of the last segment to its end; empty when there is
  no \<open>.\<close>, when the last \<open>.\<close> is the segment's first character, or when the segment is \<open>..\<close>.
\<close>

definition extname :: "string \<Rightarrow> string" where
  "extname p =
     (let b = basename p;
          suffix = rev (takeWhile (\<lambda>c. c \<noteq> dot) (rev b));
          stem = take (length b - length suffix - 1) b
      in if dot \<notin> set b then []
         else if stem = [] then []
         else if b = ''..'' then []
         else dot # suffix)"

text \<open>
  \<open>path.relative(from, to)\<close>: both are resolved against \<open>cwd\<close>; the common leading
  segments are dropped, one \<open>..\<close> is written for every remaining segment of \<open>from\<close>, and
  the remaining segments of \<open>to\<close> follow.
\<close>

fun drop_common :: "string list \<Rightarrow> string list \<Rightarrow> string list \<times> string list" where
  "drop_common (x # xs) (y # ys) =
     (if x = y then drop_common xs ys else (x # xs, y # ys))"
| "drop_common xs ys = (xs, ys)"

definition relative :: "string \<Rightarrow> string \<Rightarrow> string \<Rightarrow> string" where
  "relative cwd from to =
     (if from = to then []
      else
        (let f = resolve cwd [from];
             t = resolve cwd [to]
         in if f = t then []
            else
              (case drop_common (normalizeSegments False f) (normalizeSegments False t) of
                 (up, down) \<Rightarrow> join_sep (map (\<lambda>_. ''..'') up @ down))))"

section \<open>The file system the watcher reads\<close>

text \<open>
  \<open>fs.readdirSync\<close>, \<open>fs.statSync(...).isDirectory()\<close> and \<open>fs.existsSync\<close> read a tree of
  directories and regular files (no symbolic links).
\<close>

datatype node = File | Dir "(string \<times> node) list"

datatype error =
    ENOENT string
  | ENOTDIR string
  | HandlerError string
  | SyntaxError string

text \<open>
  The two operations of the JavaScript language the watcher uses on strings, taken as
  given: \<open>String.prototype.toLowerCase\<close>, and \<open>str.replace(new RegExp(source), '')\<close>,
  which is \<open>Inl\<close> of the \<open>SyntaxError\<close> when the constructor rejects \<open>source\<close> and
  otherwise \<open>str\<close> with its first match removed.
\<close>

record javascript =
  toLowerCase :: "string \<Rightarrow> string"
  regexp_remove :: "string \<Rightarrow> string \<Rightarrow> error + string"

text \<open>
  Path lookup as the operating system does it, component by component: the directories
  entered so far are kept, newest first. An empty component (a doubled or trailing
  separator) and \<open>.\<close> need the current node to be a directory and stay there, \<open>..\<close>
  goes back to the parent (the root is its own parent), a name enters the entry of that
  name. The empty path does not exist; a relative path starts at the working directory.
\<close>

fun step_path :: "node list \<Rightarrow> string \<Rightarrow> node list option" where
  "step_path [] seg = None"
| "step_path (current # parents) seg =
     (case current of
        File \<Rightarrow> None
      | Dir entries \<Rightarrow>
          if seg = [] \<or> seg = ''.'' then Some (current # parents)
          else if seg = ''..'' then Some (if parents = [] then [current] else parents)
          else (case map_of entries seg of
                  None \<Rightarrow> None
                | Some child \<Rightarrow> Some (child # current # parents)))"

fun walk_path :: "node list \<Rightarrow> string list \<Rightarrow> node list option" where
  "walk_path entered [] = Some entered"
| "walk_path entered (seg # segs) =
     (case step_path entered seg of
        None \<Rightarrow> None
      | Some entered' \<Rightarrow> walk_path entered' segs)"

definition stat :: "node \<Rightarrow> string \<Rightarrow> string \<Rightarrow> node option" where
  "stat fs cwd p =
     (if p = [] then None
      else
        (case (if isAbsolute p then Some [fs] else walk_path [fs] (split_sep cwd)) of
           None \<Rightarrow> None
         | Some start \<Rightarrow>
             (case walk_path start (split_sep p) of
                None \<Rightarrow> None
              | Some [] \<Rightarrow> None
              | Some (found # _) \<Rightarrow> Some found)))"

definition existsSync :: "node \<Rightarrow> string \<Rightarrow> string \<Rightarrow> bool" where
  "existsSync fs cwd p = (stat fs cwd p \<noteq> None)"

definition readdirSync :: "node \<Rightarrow> string \<Rightarrow> string \<Rightarrow> error + (string \<times> node) list" where
  "readdirSync fs cwd p =
     (case stat fs cwd p of
        None \<Rightarrow> Inl (ENOENT p)
      | Some File \<Rightarrow> Inl (ENOTDIR p)
      | Some (Dir entries) \<Rightarrow> Inr entries)"

section \<open>The watcher\<close>

datatype eventType = Add | Change | Unlink

text \<open>The handle \<open>chokidar.watch(directory, ...)\<close> returns, known by the path it watches.\<close>

datatype FSWatcher = FSWatcher string

text \<open>
  What the watcher does to the world outside its fields: \<open>this.emit\<close>, a handler call,
  \<open>console.warn\<close>, \<open>chokidar.watch\<close> and \<open>watcher.close\<close>. A callback is an opaque value
  of type \<open>'cb\<close>.
\<close>

datatype 'cb effect =
    Emit eventType string string string
  | Call 'cb string string string eventType
  | Warn string
  | Watch string
  | Close FSWatcher

text \<open>
  The fields of the class. A JavaScript \<open>Set\<close> is the list of its elements in insertion
  order, a \<open>Map\<close> that is iterated is an association list in insertion order, and
  \<open>dirHandlers\<close>, which is only looked up, is a map of maps.
\<close>

record 'cb FileWatcher =
  processId :: nat
  baseDir :: string
  watchers :: "(string \<times> FSWatcher) list"
  dirHandlers :: "string \<rightharpoonup> (eventType \<rightharpoonup> 'cb)"
  ignoredDirectories :: "string list"
  allowedExtensions :: "string list"
  monitoredDirectories :: "string list"
  initialFiles :: "string list"

definition set_add :: "'a \<Rightarrow> 'a list \<Rightarrow> 'a list" where
  "set_add x xs = (if x \<in> set xs then xs else xs @ [x])"

definition new_Set :: "'a list \<Rightarrow> 'a list" where
  "new_Set xs = foldl (\<lambda>acc x. set_add x acc) [] xs"

text \<open>
  The constructor: \<open>processId || process.pid\<close> and \<open>process.cwd()\<close>. The working directory
  is taken to stay the one the constructor read.
\<close>

definition constructor :: "nat option \<Rightarrow> nat \<Rightarrow> string \<Rightarrow> 'cb FileWatcher" where
  "constructor processIdArg pid cwd =
     \<lparr> processId = (case processIdArg of None \<Rightarrow> pid | Some n \<Rightarrow> if n = 0 then pid else n),
       baseDir = cwd,
       watchers = [],
       dirHandlers = Map.empty,
       ignoredDirectories = [],
       allowedExtensions = [],
       monitoredDirectories = [],
       initialFiles = [] \<rparr>"

subsection \<open>\<open>watchDirectory\<close> and its ignore predicate\<close>

text \<open>A JavaScript string is truthy when it is not empty.\<close>

definition truthy :: "string \<Rightarrow> bool" where
  "truthy str = (str \<noteq> [])"

text \<open>
  The function passed as \<open>ignored\<close>. It declares no parameter: the path chokidar asks
  about (\<open>candidate\<close>) is never read. It reads \<open>this.ignoredDirectories\<close> when called.
\<close>

fun ignored_loop :: "string \<Rightarrow> string list \<Rightarrow> bool" where
  "ignored_loop base [] = False"
| "ignored_loop base (ignoredDir # rest) =
     (if truthy (base @ ''/'' @ ignoredDir) then True else ignored_loop base rest)"

definition ignored :: "'cb FileWatcher \<Rightarrow> string \<Rightarrow> bool" where
  "ignored s candidate = ignored_loop (baseDir s) (ignoredDirectories s)"

definition watchDirectory :: "'cb FileWatcher \<Rightarrow> string \<Rightarrow> 'cb FileWatcher \<times> 'cb effect list" where
  "watchDirectory s directory =
     (if map_of (watchers s) directory \<noteq> None then (s, [])
      else (s\<lparr>watchers := AList.update directory (FSWatcher directory) (watchers s)\<rparr>,
            [Watch directory]))"

subsection \<open>\<open>findHandler\<close>\<close>

text \<open>
  The loop \<open>while (currentDir !== path.dirname(currentDir))\<close> ends because \<open>dirname\<close>
  either returns one of its fixed points \<open>/\<close> and \<open>.\<close> or a shorter string.
\<close>

lemma dropWhile_segment_shorter:
  assumes "dropWhile (\<lambda>c. c \<noteq> slash) (dropWhile (\<lambda>c. c = slash) body) \<noteq> []"
  shows "length (dropWhile (\<lambda>c. c \<noteq> slash) (dropWhile (\<lambda>c. c = slash) body)) < length body"
proof -
  let ?seg = "dropWhile (\<lambda>c. c = slash) body"
  from assms have ne: "?seg \<noteq> []" by (metis dropWhile.simps(1))
  then obtain c cs where seg: "?seg = c # cs" by (cases ?seg) auto
  have "c \<noteq> slash" using hd_dropWhile[of "\<lambda>c. c = slash" body] ne seg by (metis list.sel(1))
  then have "dropWhile (\<lambda>c. c \<noteq> slash) ?seg = dropWhile (\<lambda>c. c \<noteq> slash) cs"
    using seg by simp
  moreover have "length (dropWhile (\<lambda>c. c \<noteq> slash) cs) \<le> length cs"
    by (rule length_dropWhile_le)
  moreover have "length ?seg \<le> length body" by (rule length_dropWhile_le)
  ultimately show ?thesis using seg by simp
qed


lemma dirname_root: "dirname ''/'' = ''/''"
  by (simp add: dirname_def slash_def)

lemma dirname_dot: "dirname ''.'' = ''.''"
  by (simp add: dirname_def slash_def)

lemma dirname_shorter:
  "dirname p = ''/'' \<or> dirname p = ''.'' \<or> length (dirname p) < length p"
proof (cases "p = []")
  case True
  then show ?thesis by (simp add: dirname_def)
next
  case False
  define rest where "rest = dropWhile (\<lambda>c. c \<noteq> slash) (dropWhile (\<lambda>c. c = slash) (rev (tl p)))"
  have dn: "dirname p = (if rest = [] then (if hd p = slash then ''/'' else ''.'')
            else if hd p = slash \<and> length rest = 1 then ''//''
            else hd p # rev (tl rest))"
    using False unfolding dirname_def rest_def Let_def by simp
  show ?thesis
  proof (cases "rest = []")
    case True
    with dn show ?thesis by simp
  next
    case ne: False
    have "length rest < length (rev (tl p))"
      unfolding rest_def using ne[unfolded rest_def] by (rule dropWhile_segment_shorter)
    then have lt: "Suc (length rest) < length p" using False by simp
    from ne have pos: "0 < length rest" by simp
    show ?thesis
    proof (cases "hd p = slash \<and> length rest = 1")
      case True
      with ne dn have "dirname p = ''//''" by presburger
      with True lt show ?thesis by simp
    next
      case F2: False
      with ne dn have "dirname p = hd p # rev (tl rest)" by presburger
      with lt pos show ?thesis by simp
    qed
  qed
qed

lemma dirname_decreases:
  assumes "p \<noteq> dirname p" and "dirname (dirname p) \<noteq> dirname p"
  shows "length (dirname p) < length p"
  using assms dirname_shorter[of p] dirname_root dirname_dot by auto

function findHandler_loop ::
  "(string \<rightharpoonup> (eventType \<rightharpoonup> 'cb)) \<Rightarrow> eventType \<Rightarrow> string \<Rightarrow> 'cb option" where
  "findHandler_loop handlersOf eventType currentDir =
     (if currentDir \<noteq> dirname currentDir then
        (case handlersOf currentDir of
           None \<Rightarrow> findHandler_loop handlersOf eventType (dirname currentDir)
         | Some handlers \<Rightarrow>
             (case handlers eventType of
                Some callback \<Rightarrow> Some callback
              | None \<Rightarrow> findHandler_loop handlersOf eventType (dirname currentDir)))
      else None)"
  by pat_completeness auto
termination
  by (relation "measure (\<lambda>(h, k, d). if dirname d = d then 0 else Suc (length d))")
     (simp_all add: dirname_decreases)

declare findHandler_loop.simps [simp del]

definition findHandler :: "'cb FileWatcher \<Rightarrow> string \<Rightarrow> eventType \<Rightarrow> 'cb option" where
  "findHandler s directory eventType = findHandler_loop (dirHandlers s) eventType directory"

subsection \<open>\<open>handleEvent\<close>\<close>

text \<open>
  \<open>str.replace(new RegExp(`[\\\\/]${filename}$`), '')\<close>: the file name is used as a
  regular expression. The pattern is a separator (\<open>/\<close> or a backslash), the file name,
  and the end of the string. When the file name has no syntax character of regular
  expressions other than \<open>.\<close>, the pattern can only match the last
  \<open>length filename + 1\<close> characters, \<open>.\<close> standing for any character but a line
  terminator and every other character for itself; this case is computed here. For any
  other file name the result is the one the regular expression engine gives for the
  pattern, which may be a \<open>SyntaxError\<close>.
\<close>

definition backslash :: char where
  "backslash = CHR 0x5C"

definition syntaxCharacters :: "char list" where
  "syntaxCharacters =
     [CHR ''^'', CHR ''$'', backslash, CHR ''*'', CHR ''+'', CHR ''?'', CHR ''('', CHR '')'',
      CHR ''['', CHR '']'', CHR ''{'', CHR ''}'', CHR ''|'']"

definition pattern_char_matches :: "char \<Rightarrow> char \<Rightarrow> bool" where
  "pattern_char_matches pc c =
     (if pc = dot then c \<noteq> CHR 0x0A \<and> c \<noteq> CHR 0x0D else pc = c)"

definition replace_trailing_filename ::
  "javascript \<Rightarrow> string \<Rightarrow> string \<Rightarrow> error + string" where
  "replace_trailing_filename js str filename =
     (if list_ex (\<lambda>c. c \<in> set syntaxCharacters) filename
      then regexp_remove js ([CHR ''['', backslash, backslash, slash, CHR '']''] @ filename @ ''$'') str
      else
        (let n = Suc (length filename);
             start = length str - n
         in if n \<le> length str
               \<and> (str ! start = slash \<or> str ! start = backslash)
               \<and> list_all2 pattern_char_matches filename (drop (Suc start) str)
            then Inr (take start str)
            else Inr str))"

text \<open>
  What invoking a callback does is given by \<open>call\<close>: \<open>None\<close> when it returns, \<open>Some e\<close>
  when it throws \<open>e\<close>. \<open>handleEvent\<close> changes no field; its result is what it did, in
  order, and the error that left it, if any. The listeners of the inherited
  \<open>EventEmitter\<close> are outside the class; \<open>this.emit\<close> is recorded as \<open>Emit\<close>.
\<close>

type_synonym 'cb invoke = "'cb \<Rightarrow> string \<Rightarrow> string \<Rightarrow> string \<Rightarrow> eventType \<Rightarrow> string option"

definition handleEvent ::
  "javascript \<Rightarrow> 'cb invoke \<Rightarrow> 'cb FileWatcher \<Rightarrow> eventType \<Rightarrow> string \<Rightarrow> string
     \<Rightarrow> 'cb effect list \<times> error option" where
  "handleEvent js call s eventType directory filePath =
     (let filename = basename filePath;
          extension = toLowerCase js (extname filename)
      in case replace_trailing_filename js (relative (baseDir s) (baseDir s) filePath) filename of
           Inl e \<Rightarrow> ([], Some e)
         | Inr relativePath \<Rightarrow>
             if allowedExtensions s \<noteq> [] \<and> extension \<notin> set (allowedExtensions s) then ([], None)
             else if filePath \<in> set (initialFiles s) \<and> eventType = Add then ([], None)
             else
               (let emitted = [Emit eventType directory filename (baseDir s @ ''/'' @ relativePath)]
                in case findHandler s directory eventType of
                     None \<Rightarrow> (emitted, None)
                   | Some handler \<Rightarrow>
                       (emitted @ [Call handler directory filename (baseDir s @ ''/'' @ relativePath) eventType],
                        map_option HandlerError
                          (call handler directory filename (baseDir s @ ''/'' @ relativePath) eventType))))"

text \<open>
  The error that leaves \<open>handleEvent\<close> before either filter is reached: the
  \<open>SyntaxError\<close> of the \<open>RegExp\<close> constructor, if it throws.
\<close>

definition thrown_before_filters :: "javascript \<Rightarrow> 'cb FileWatcher \<Rightarrow> string \<Rightarrow> error option" where
  "thrown_before_filters js s filePath =
     (case replace_trailing_filename js (relative (baseDir s) (baseDir s) filePath) (basename filePath) of
        Inl e \<Rightarrow> Some e
      | Inr relativePath \<Rightarrow> None)"

subsection \<open>\<open>captureInitialFiles\<close>, \<open>startWatching\<close>, \<open>stopWatching\<close>\<close>

text \<open>
  The loop over \<open>fs.readdirSync(directory)\<close>. The listing of a subdirectory
  \<open>fullPath\<close> is the subtree the entry holds.
\<close>

fun capture_entries :: "string \<Rightarrow> (string \<times> node) list \<Rightarrow> string list \<Rightarrow> string list" where
  "capture_entries directory [] files = files"
| "capture_entries directory ((file, n) # rest) files =
     capture_entries directory rest
       (case n of
          Dir sub \<Rightarrow> capture_entries (join [directory, file]) sub files
        | File \<Rightarrow> set_add (join [directory, file]) files)"

definition captureInitialFiles ::
  "node \<Rightarrow> 'cb FileWatcher \<Rightarrow> string \<Rightarrow> 'cb FileWatcher \<times> error option" where
  "captureInitialFiles fs s directory =
     (case readdirSync fs (baseDir s) directory of
        Inl e \<Rightarrow> (s, Some e)
      | Inr entries \<Rightarrow>
          (s\<lparr>initialFiles := capture_entries directory entries (initialFiles s)\<rparr>, None))"

fun capture_each :: "node \<Rightarrow> 'cb FileWatcher \<Rightarrow> string list \<Rightarrow> 'cb FileWatcher \<times> error option" where
  "capture_each fs s [] = (s, None)"
| "capture_each fs s (dir # dirs) =
     (case captureInitialFiles fs s dir of
        (s', Some e) \<Rightarrow> (s', Some e)
      | (s', None) \<Rightarrow> capture_each fs s' dirs)"

fun watch_each :: "'cb FileWatcher \<Rightarrow> string list \<Rightarrow> 'cb FileWatcher \<times> 'cb effect list" where
  "watch_each s [] = (s, [])"
| "watch_each s (dir # dirs) =
     (case watchDirectory s dir of
        (s', opened) \<Rightarrow> (case watch_each s' dirs of (s'', later) \<Rightarrow> (s'', opened @ later)))"

definition directories :: "'cb FileWatcher \<Rightarrow> string list" where
  "directories s =
     (if monitoredDirectories s \<noteq> [] then monitoredDirectories s else new_Set [baseDir s])"

definition startWatching ::
  "node \<Rightarrow> 'cb FileWatcher \<Rightarrow> 'cb FileWatcher \<times> 'cb effect list \<times> error option" where
  "startWatching fs s =
     (case capture_each fs s (directories s) of
        (s', Some e) \<Rightarrow> (s', [], Some e)
      | (s', None) \<Rightarrow>
          (case watch_each s' (directories s) of (s'', opened) \<Rightarrow> (s'', opened, None)))"

definition stopWatching :: "'cb FileWatcher \<Rightarrow> 'cb FileWatcher \<times> 'cb effect list" where
  "stopWatching s = (s\<lparr>watchers := []\<rparr>, map (\<lambda>(dir, watcher). Close watcher) (watchers s))"

subsection \<open>Configuration\<close>

definition setHandler ::
  "'cb FileWatcher \<Rightarrow> string \<Rightarrow> eventType \<Rightarrow> 'cb \<Rightarrow> 'cb FileWatcher \<times> 'cb effect list" where
  "setHandler s directory eventType callback =
     (let handlers = (case dirHandlers s directory of None \<Rightarrow> Map.empty | Some hs \<Rightarrow> hs)
      in watchDirectory
           (s\<lparr>dirHandlers := (dirHandlers s)(directory \<mapsto> handlers(eventType \<mapsto> callback))\<rparr>)
           directory)"

fun ignoreDirectory ::
  "node \<Rightarrow> 'cb FileWatcher \<Rightarrow> string list \<Rightarrow> 'cb FileWatcher \<times> 'cb effect list" where
  "ignoreDirectory fs s [] = (s, [])"
| "ignoreDirectory fs s (dir # rest) =
     (if \<not> existsSync fs (baseDir s) dir then
        (case ignoreDirectory fs s rest of
           (s', warned) \<Rightarrow>
             (s', Warn (''Directory '' @ dir @ '' doesr not exist, ignoring it will not work.'') # warned))
      else ignoreDirectory fs (s\<lparr>ignoredDirectories := set_add dir (ignoredDirectories s)\<rparr>) rest)"

fun unignoreDirectory ::
  "'cb FileWatcher \<Rightarrow> string list \<Rightarrow> 'cb FileWatcher \<times> 'cb effect list" where
  "unignoreDirectory s [] = (s, [])"
| "unignoreDirectory s (dir # rest) =
     (if dir \<in> set (ignoredDirectories s) then
        unignoreDirectory (s\<lparr>ignoredDirectories := removeAll dir (ignoredDirectories s)\<rparr>) rest
      else
        (case unignoreDirectory s rest of
           (s', warned) \<Rightarrow> (s', Warn (''Directory '' @ dir @ '' is not ignored.'') # warned)))"

definition setAllowedExtensions ::
  "javascript \<Rightarrow> 'cb FileWatcher \<Rightarrow> string list \<Rightarrow> 'cb FileWatcher" where
  "setAllowedExtensions js s extensions =
     s\<lparr>allowedExtensions := new_Set (map (toLowerCase js) extensions)\<rparr>"

definition setMonitoredDirectories :: "'cb FileWatcher \<Rightarrow> string list \<Rightarrow> 'cb FileWatcher" where
  "setMonitoredDirectories s dirs =
     s\<lparr>monitoredDirectories := new_Set (map (\<lambda>dir. resolve (baseDir s) [baseDir s, dir]) dirs)\<rparr>"

section \<open>The walk of \<open>findHandler\<close>, as a list\<close>

text \<open>
  The directories \<open>findHandler\<close> looks at, in order: \<open>directory\<close>, its parent, and so on,
  up to but not including the first one that is its own parent.
\<close>

function walk :: "string \<Rightarrow> string list" where
  "walk currentDir =
     (if currentDir \<noteq> dirname currentDir then currentDir # walk (dirname currentDir) else [])"
  by pat_completeness auto
termination
  by (relation "measure (\<lambda>d. if dirname d = d then 0 else Suc (length d))")
     (simp_all add: dirname_decreases)

declare walk.simps [simp del]

text \<open>The callback registered for \<open>eventType\<close> on exactly \<open>directory\<close>, if any.\<close>

definition handler_at :: "'cb FileWatcher \<Rightarrow> string \<Rightarrow> eventType \<Rightarrow> 'cb option" where
  "handler_at s directory eventType =
     (case dirHandlers s directory of None \<Rightarrow> None | Some handlers \<Rightarrow> handlers eventType)"

section \<open>Sequences of public calls\<close>

text \<open>
  The public methods, each with the file system it finds when it is called, and the
  watcher after a call (the fields are kept as they are when a call throws).
\<close>

datatype 'cb operation =
    StartWatching node
  | StopWatching
  | SetHandler string eventType 'cb
  | IgnoreDirectory node "string list"
  | UnignoreDirectory "string list"
  | SetAllowedExtensions "string list"
  | SetMonitoredDirectories "string list"

fun perform :: "javascript \<Rightarrow> 'cb FileWatcher \<Rightarrow> 'cb operation \<Rightarrow> 'cb FileWatcher" where
  "perform js s (StartWatching fs) = fst (startWatching fs s)"
| "perform js s StopWatching = fst (stopWatching s)"
| "perform js s (SetHandler directory eventType callback) = fst (setHandler s directory eventType callback)"
| "perform js s (IgnoreDirectory fs dirs) = fst (ignoreDirectory fs s dirs)"
| "perform js s (UnignoreDirectory dirs) = fst (unignoreDirectory s dirs)"
| "perform js s (SetAllowedExtensions extensions) = setAllowedExtensions js s extensions"
| "perform js s (SetMonitoredDirectories dirs) = setMonitoredDirectories s dirs"

text \<open>
  The regular files below a directory, named as \<open>path.join\<close> names them from the
  directory's own name: the files a snapshot of that directory is expected to hold.
\<close>

fun files_in :: "string \<Rightarrow> (string \<times> node) list \<Rightarrow> string list" where
  "files_in directory [] = []"
| "files_in directory ((file, n) # rest) =
     (case n of
        Dir sub \<Rightarrow> files_in (join [directory, file]) sub
      | File \<Rightarrow> [join [directory, file]])
     @ files_in directory rest"

section \<open>The ignore predicate the specification describes\<close>

text \<open>
  For comparison with \<open>ignored\<close>: a candidate path lies under a directory when it is the
  directory or continues it after a separator, and the predicate of the specification
  holds when the candidate lies under some directory of \<open>ignoredDirectories\<close>.
\<close>

definition lies_under :: "string \<Rightarrow> string \<Rightarrow> bool" where
  "lies_under candidate dir =
     (candidate = dir \<or> take (Suc (length dir)) candidate = dir @ ''/'')"

definition spec_ignored :: "'cb FileWatcher \<Rightarrow> string \<Rightarrow> bool" where
  "spec_ignored s candidate = list_ex (lies_under candidate) (ignoredDirectories s)"

section \<open>Example configurations\<close>

text \<open>
  A working directory \<open>/w\<close> holding \<open>a.js\<close> and a directory \<open>test\<close> with \<open>b.JS\<close> and
  \<open>sub/c.txt\<close>; a fresh watcher over it whose callbacks are numbers; callback 2 throws.
\<close>

definition example_fs :: node where
  "example_fs =
     Dir [(''w'', Dir [(''a.js'', File),
                       (''test'', Dir [(''b.JS'', File), (''sub'', Dir [(''c.txt'', File)])])])]"

definition example_watcher :: "nat FileWatcher" where
  "example_watcher = constructor None 7 ''/w''"

text \<open>
  A stand-in for the JavaScript operations: lower-casing of the ASCII letters, and an
  engine that rejects the pattern made from \<open>c++.txt\<close> (nothing to repeat) and finds no
  match for any other pattern it is asked about. It agrees with JavaScript on the ASCII
  names and on the two patterns used in the examples below.
\<close>

definition ascii_lower :: "char \<Rightarrow> char" where
  "ascii_lower c =
     (let n = of_char c :: nat
      in if 65 \<le> n \<and> n \<le> 90 then char_of (n + 32) else c)"

definition example_js :: javascript where
  "example_js =
     \<lparr> toLowerCase = map ascii_lower,
       regexp_remove = (\<lambda>source str.
         if source = [CHR ''['', backslash, backslash, slash, CHR '']''] @ ''c++.txt$''
         then Inl (SyntaxError ''Nothing to repeat'')
         else Inr str) \<rparr>"

definition example_call :: "nat invoke" where
  "example_call = (\<lambda>callback directory filename relativePath eventType.
     if callback = 2 then Some ''boom'' else None)"

text \<open>Handlers for \<open>change\<close> on \<open>/a\<close> (callback 1) and on \<open>/a/b\<close> (callback 2).\<close>

definition example_handlers :: "nat FileWatcher" where
  "example_handlers =
     fst (setHandler (fst (setHandler example_watcher ''/a'' Change 1)) ''/a/b'' Change 2)"

text \<open>
  The same working directory after \<open>/w/new.js\<close> has been created, and the watcher after
  a first \<open>startWatching\<close> on the earlier tree.
\<close>

definition example_fs_later :: node where
  "example_fs_later =
     Dir [(''w'', Dir [(''a.js'', File), (''new.js'', File),
                       (''test'', Dir [(''b.JS'', File), (''sub'', Dir [(''c.txt'', File)])])])]"

definition example_session :: "nat FileWatcher" where
  "example_session = fst (startWatching example_fs example_watcher)"

text \<open>A handler for \<open>change\<close> on \<open>/w/test\<close> that throws (callback 2).\<close>

definition example_throwing :: "nat FileWatcher" where
  "example_throwing = fst (setHandler example_watcher ''/w/test'' Change 2)"

text \<open>
  The configuration of the repository's README and test script: a handler on \<open>./test\<close>,
  then \<open>./test\<close> as the monitored directory.
\<close>

definition example_readme :: "nat FileWatcher" where
  "example_readme =
     setMonitoredDirectories (fst (setHandler example_watcher ''./test'' Change 1)) [''./test'']"

section \<open>Stopping\<close>

lemma stopWatching_fields:
  "fst (stopWatching s) = s\<lparr>watchers := []\<rparr>"
  by (simp add: stopWatching_def)

text \<open>
  C8. \<open>stopWatching()\<close> closes every watcher of the registry, in registry order, and
  leaves the registry empty; the handler table, the ignore set, the allowed extensions and
  the monitored directories are what they were. On a watcher whose registry is empty
  (one that never started watching, for instance a fresh one) it changes nothing and
  closes nothing.
\<close>

theorem stopWatching_clears_registry_only:
  "watchers (fst (stopWatching s)) = []
   \<and> snd (stopWatching s) = map Close (map snd (watchers s))
   \<and> dirHandlers (fst (stopWatching s)) = dirHandlers s
   \<and> ignoredDirectories (fst (stopWatching s)) = ignoredDirectories s
   \<and> allowedExtensions (fst (stopWatching s)) = allowedExtensions s
   \<and> monitoredDirectories (fst (stopWatching s)) = monitoredDirectories s
   \<and> (watchers s = [] \<longrightarrow> stopWatching s = (s, []))
   \<and> stopWatching (constructor processIdArg pid cwd :: 'cb FileWatcher)
       = (constructor processIdArg pid cwd, [])"
proof -
  have closes: "snd (stopWatching s) = map Close (map snd (watchers s))"
    by (simp add: stopWatching_def case_prod_unfold comp_def)
  have idle: "stopWatching s = (s, [])" if "watchers s = []"
    using that by (simp add: stopWatching_def)
  have fresh: "stopWatching (constructor processIdArg pid cwd :: 'cb FileWatcher)
       = (constructor processIdArg pid cwd, [])"
    by (simp add: stopWatching_def constructor_def)
  show ?thesis
    using closes idle fresh by (simp add: stopWatching_fields)
qed

theorem stopWatching_idle_witness:
  "watchers example_watcher = [] \<and> stopWatching example_watcher = (example_watcher, [])"
proof -
  have idle: "watchers example_watcher = []"
    by (simp add: example_watcher_def constructor_def)
  with stopWatching_clears_registry_only [of example_watcher None 7 "''/w''"]
  show ?thesis by blast
qed

section \<open>The two filters of \<open>handleEvent\<close>\<close>

lemma handleEvent_extension_result:
  assumes "allowedExtensions s \<noteq> []"
    and "toLowerCase js (extname (basename filePath)) \<notin> set (allowedExtensions s)"
  shows "handleEvent js call s eventType directory filePath = ([], thrown_before_filters js s filePath)"
  using assms by (simp add: handleEvent_def thrown_before_filters_def Let_def split: sum.splits)

lemma handleEvent_initial_result:
  assumes "filePath \<in> set (initialFiles s)"
  shows "handleEvent js call s Add directory filePath = ([], thrown_before_filters js s filePath)"
  using assms by (simp add: handleEvent_def thrown_before_filters_def Let_def split: sum.splits)

lemma handleEvent_initial_drop:
  assumes "filePath \<in> set (initialFiles s)"
  shows "fst (handleEvent js call s Add directory filePath) = []"
  using assms by (simp add: handleEvent_initial_result)

lemma handleEvent_survivor:
  assumes "allowedExtensions s = [] \<or> toLowerCase js (extname (basename filePath)) \<in> set (allowedExtensions s)"
    and "filePath \<notin> set (initialFiles s) \<or> eventType \<noteq> Add"
    and "replace_trailing_filename js (relative (baseDir s) (baseDir s) filePath) (basename filePath)
           = Inr relativePath"
  shows "\<exists>calls. fst (handleEvent js call s eventType directory filePath)
           = Emit eventType directory (basename filePath) (baseDir s @ ''/'' @ relativePath) # calls"
  using assms by (auto simp add: handleEvent_def Let_def split: option.splits)

text \<open>
  C2. An \<open>add\<close> notification for a path in \<open>initialFiles\<close> does nothing: nothing is emitted
  and no handler is called, whatever the file name (the only thing that can leave
  \<open>handleEvent\<close> is the \<open>SyntaxError\<close> of the pattern, thrown before the filters). An
  \<open>add\<close> notification for a path that is not in \<open>initialFiles\<close>, whose extension the
  extension filter lets through, is emitted whenever the pattern was built, that is,
  whenever \<open>handleEvent\<close> reached the filters.
\<close>

theorem initial_scan_suppression:
  "(filePath \<in> set (initialFiles s)
      \<longrightarrow> handleEvent js call s Add directory filePath = ([], thrown_before_filters js s filePath))
   \<and> (filePath \<notin> set (initialFiles s)
        \<and> (allowedExtensions s = []
             \<or> toLowerCase js (extname (basename filePath)) \<in> set (allowedExtensions s))
        \<and> replace_trailing_filename js (relative (baseDir s) (baseDir s) filePath) (basename filePath)
             = Inr relativePath
      \<longrightarrow> (\<exists>calls. fst (handleEvent js call s Add directory filePath)
             = Emit Add directory (basename filePath) (baseDir s @ ''/'' @ relativePath) # calls))"
  using handleEvent_initial_result [of filePath s js call directory]
    handleEvent_survivor [of s js filePath Add relativePath call directory]
  by blast

theorem initial_scan_suppression_witness:
  "''/w/test/b.JS'' \<in> set (initialFiles example_session)
   \<and> handleEvent example_js example_call example_session Add ''/w'' ''/w/test/b.JS'' = ([], None)
   \<and> ''/w/test/new.js'' \<notin> set (initialFiles example_session)
   \<and> fst (handleEvent example_js example_call example_session Add ''/w'' ''/w/test/new.js'')
       = [Emit Add ''/w'' ''new.js'' ''/w/test'']
   \<and> ''/w/test/file(1).txt'' \<notin> set (initialFiles example_session)
   \<and> fst (handleEvent example_js example_call example_session Add ''/w'' ''/w/test/file(1).txt'')
       = [Emit Add ''/w'' ''file(1).txt'' ''/w/test/file(1).txt'']"
proof -
  let ?s = "example_session"
  have files: "initialFiles ?s = [''/w/a.js'', ''/w/test/b.JS'', ''/w/test/sub/c.txt'']"
    by code_simp
  have old: "''/w/test/b.JS'' \<in> set (initialFiles ?s)"
    by (simp add: files)
  have new: "''/w/test/new.js'' \<notin> set (initialFiles ?s)"
    by (simp add: files)
  have odd: "''/w/test/file(1).txt'' \<notin> set (initialFiles ?s)"
    by (simp add: files)
  have quiet: "thrown_before_filters example_js ?s ''/w/test/b.JS'' = None"
    by code_simp
  have dropped: "handleEvent example_js example_call ?s Add ''/w'' ''/w/test/b.JS'' = ([], None)"
    using initial_scan_suppression [of "''/w/test/b.JS''" ?s example_js example_call "''/w''"] old quiet
    by simp
  have delivered: "fst (handleEvent example_js example_call ?s Add ''/w'' ''/w/test/new.js'')
      = [Emit Add ''/w'' ''new.js'' ''/w/test'']"
    by code_simp
  have delivered_odd: "fst (handleEvent example_js example_call ?s Add ''/w'' ''/w/test/file(1).txt'')
      = [Emit Add ''/w'' ''file(1).txt'' ''/w/test/file(1).txt'']"
    by code_simp
  show ?thesis
    using old new odd dropped delivered delivered_odd by blast
qed

text \<open>
  C6. When \<open>allowedExtensions\<close> is not empty and does not hold the lower-cased extension
  of the file name, nothing is emitted and no handler is called, whatever the file name
  (the only thing that can leave \<open>handleEvent\<close> is the \<open>SyntaxError\<close> of the pattern,
  thrown before the filters). When it is empty, an event the initial-scan rule does not
  drop is emitted whenever \<open>handleEvent\<close> reached the filters: the extension filter drops
  nothing. \<open>setAllowedExtensions\<close> replaces the set by the lower-cased arguments.
\<close>

theorem extension_filter:
  "(allowedExtensions s \<noteq> []
      \<and> toLowerCase js (extname (basename filePath)) \<notin> set (allowedExtensions s)
      \<longrightarrow> handleEvent js call s eventType directory filePath
          = ([], thrown_before_filters js s filePath))
   \<and> (allowedExtensions s = []
        \<and> (filePath \<notin> set (initialFiles s) \<or> eventType \<noteq> Add)
        \<and> replace_trailing_filename js (relative (baseDir s) (baseDir s) filePath) (basename filePath)
             = Inr relativePath
      \<longrightarrow> (\<exists>calls. fst (handleEvent js call s eventType directory filePath)
             = Emit eventType directory (basename filePath) (baseDir s @ ''/'' @ relativePath) # calls))
   \<and> set (allowedExtensions (setAllowedExtensions js s extensions)) = toLowerCase js ` set extensions"
proof -
  have replaced: "set (new_Set xs) = set xs" for xs :: "string list"
  proof -
    have "set (foldl (\<lambda>acc x. set_add x acc) acc xs) = set acc \<union> set xs" for acc
      by (induction xs arbitrary: acc) (auto simp add: set_add_def)
    then show ?thesis by (simp add: new_Set_def)
  qed
  have "set (allowedExtensions (setAllowedExtensions js s extensions)) = toLowerCase js ` set extensions"
    by (simp add: setAllowedExtensions_def replaced)
  then show ?thesis
    using handleEvent_extension_result [of s js filePath call eventType directory]
      handleEvent_survivor [of s js filePath eventType relativePath call directory]
    by blast
qed

theorem extension_filter_witness:
  "allowedExtensions (setAllowedExtensions example_js example_watcher [''.JS'']) = [''.js'']
   \<and> toLowerCase example_js (extname (basename ''/w/test/foo.ts'')) = ''.ts''
   \<and> handleEvent example_js example_call (setAllowedExtensions example_js example_watcher [''.JS''])
         Change ''/w'' ''/w/test/foo.ts'' = ([], None)
   \<and> handleEvent example_js example_call (setAllowedExtensions example_js example_watcher [''.JS''])
         Change ''/w'' ''/w/c++.txt'' = ([], Some (SyntaxError ''Nothing to repeat''))
   \<and> fst (handleEvent example_js example_call (setAllowedExtensions example_js example_watcher [''.JS''])
         Change ''/w'' ''/w/test/b.JS'') = [Emit Change ''/w'' ''b.JS'' ''/w/test'']
   \<and> allowedExtensions example_watcher = []
   \<and> fst (handleEvent example_js example_call example_watcher Change ''/w'' ''/w/test/foo.ts'')
       = [Emit Change ''/w'' ''foo.ts'' ''/w/test'']
   \<and> fst (handleEvent example_js example_call example_watcher Change ''/w'' ''/w/test/file(1).txt'')
       = [Emit Change ''/w'' ''file(1).txt'' ''/w/test/file(1).txt'']"
proof -
  let ?s = "setAllowedExtensions example_js example_watcher [''.JS'']"
  have allowed: "allowedExtensions ?s = [''.js'']"
    by code_simp
  have ext: "toLowerCase example_js (extname (basename ''/w/test/foo.ts'')) = ''.ts''"
    by code_simp
  have ext2: "toLowerCase example_js (extname (basename ''/w/c++.txt'')) = ''.txt''"
    by code_simp
  have quiet: "thrown_before_filters example_js ?s ''/w/test/foo.ts'' = None"
    by code_simp
  have loud: "thrown_before_filters example_js ?s ''/w/c++.txt'' = Some (SyntaxError ''Nothing to repeat'')"
    by code_simp
  have dropped: "handleEvent example_js example_call ?s Change ''/w'' ''/w/test/foo.ts'' = ([], None)"
    using extension_filter [of ?s example_js "''/w/test/foo.ts''" example_call Change "''/w''"]
      allowed ext quiet
    by simp
  have threw: "handleEvent example_js example_call ?s Change ''/w'' ''/w/c++.txt''
      = ([], Some (SyntaxError ''Nothing to repeat''))"
    using extension_filter [of ?s example_js "''/w/c++.txt''" example_call Change "''/w''"]
      allowed ext2 loud
    by simp
  have kept: "fst (handleEvent example_js example_call ?s Change ''/w'' ''/w/test/b.JS'')
      = [Emit Change ''/w'' ''b.JS'' ''/w/test'']"
    by code_simp
  have none: "allowedExtensions example_watcher = []"
    by code_simp
  have all: "fst (handleEvent example_js example_call example_watcher Change ''/w'' ''/w/test/foo.ts'')
      = [Emit Change ''/w'' ''foo.ts'' ''/w/test'']"
    by code_simp
  have odd: "fst (handleEvent example_js example_call example_watcher Change ''/w'' ''/w/test/file(1).txt'')
      = [Emit Change ''/w'' ''file(1).txt'' ''/w/test/file(1).txt'']"
    by code_simp
  show ?thesis
    using allowed ext dropped threw kept none all odd by blast
qed

section \<open>Handler resolution\<close>

lemma findHandler_loop_walk:
  "findHandler_loop (dirHandlers s) eventType directory =
     (case find (\<lambda>x. handler_at s x eventType \<noteq> None) (walk directory) of
        None \<Rightarrow> None
      | Some x \<Rightarrow> handler_at s x eventType)"
proof (induction directory rule: walk.induct)
  case (1 currentDir)
  show ?case
  proof (cases "currentDir \<noteq> dirname currentDir")
    case False
    then show ?thesis
      by (subst findHandler_loop.simps, subst walk.simps) simp
  next
    case True
    note IH = "1.IH" [OF True]
    show ?thesis
    proof (cases "handler_at s currentDir eventType")
      case None
      with True IH show ?thesis
        by (subst findHandler_loop.simps, subst walk.simps)
           (simp add: handler_at_def split: option.splits)
    next
      case (Some callback)
      with True show ?thesis
        by (subst findHandler_loop.simps, subst walk.simps)
           (auto simp add: handler_at_def split: option.splits)
    qed
  qed
qed

lemma find_skips_prefix:
  assumes "\<forall>y \<in> set pre. \<not> P y" and "P x"
  shows "find P (pre @ x # post) = Some x"
  using assms by (induction pre) simp_all

text \<open>
  C3. \<open>findHandler(directory, eventType)\<close> returns the callback of the first directory
  of the walk (\<open>directory\<close>, its parent, its grandparent, ... as long as the directory
  differs from its own parent) that has a handler for \<open>eventType\<close>, and nothing when no
  directory of the walk has one. So a handler on a directory of the walk wins over the
  handlers of all directories after it, its ancestors, whenever the directories before it
  have none.
\<close>

theorem findHandler_nearest:
  "findHandler s directory eventType =
     (case find (\<lambda>x. handler_at s x eventType \<noteq> None) (walk directory) of
        None \<Rightarrow> None
      | Some x \<Rightarrow> handler_at s x eventType)
   \<and> (walk directory = nearer @ x # farther
        \<and> (\<forall>y \<in> set nearer. handler_at s y eventType = None)
        \<and> handler_at s x eventType = Some callback
      \<longrightarrow> findHandler s directory eventType = Some callback)
   \<and> ((\<forall>y \<in> set (walk directory). handler_at s y eventType = None)
      \<longrightarrow> findHandler s directory eventType = None)"
proof -
  let ?P = "\<lambda>x. handler_at s x eventType \<noteq> None"
  have eq: "findHandler s directory eventType =
     (case find ?P (walk directory) of None \<Rightarrow> None | Some x \<Rightarrow> handler_at s x eventType)"
    by (simp add: findHandler_def findHandler_loop_walk)
  have near: "findHandler s directory eventType = Some callback"
    if w: "walk directory = nearer @ x # farther"
      and n: "\<forall>y \<in> set nearer. handler_at s y eventType = None"
      and h: "handler_at s x eventType = Some callback"
  proof -
    have "find ?P (nearer @ x # farther) = Some x"
      using n h by (intro find_skips_prefix) simp_all
    with eq w h show ?thesis by simp
  qed
  have none: "findHandler s directory eventType = None"
    if "\<forall>y \<in> set (walk directory). handler_at s y eventType = None"
  proof -
    have "find ?P (walk directory) = None"
      using that by (simp add: find_None_iff)
    with eq show ?thesis by simp
  qed
  from eq near none show ?thesis by blast
qed

theorem findHandler_nearest_witness:
  "walk ''/a/b/c'' = [''/a/b/c''] @ ''/a/b'' # [''/a'']
   \<and> handler_at example_handlers ''/a/b/c'' Change = None
   \<and> handler_at example_handlers ''/a/b'' Change = Some 2
   \<and> handler_at example_handlers ''/a'' Change = Some 1
   \<and> findHandler example_handlers ''/a/b/c'' Change = Some 2
   \<and> walk ''/'' = []
   \<and> findHandler example_handlers ''/'' Change = None"
proof -
  have w: "walk ''/a/b/c'' = [''/a/b/c''] @ ''/a/b'' # [''/a'']"
    by code_simp
  have c: "handler_at example_handlers ''/a/b/c'' Change = None"
    by code_simp
  have b: "handler_at example_handlers ''/a/b'' Change = Some 2"
    by code_simp
  have a: "handler_at example_handlers ''/a'' Change = Some 1"
    by code_simp
  have root: "walk ''/'' = []"
    by code_simp
  have found: "findHandler example_handlers ''/a/b/c'' Change = Some 2"
    using findHandler_nearest
      [of example_handlers "''/a/b/c''" Change "[''/a/b/c'']" "''/a/b''" "[''/a'']" 2]
      w c b
    by simp
  have none: "findHandler example_handlers ''/'' Change = None"
    using findHandler_nearest [of example_handlers "''/''" Change] root
    by simp
  show ?thesis
    using w c b a found root none by blast
qed

section \<open>The initial file set over the life of a watcher\<close>

lemma set_capture_entries:
  "set (capture_entries directory entries files) = set files \<union> set (files_in directory entries)"
proof (induction directory entries files rule: capture_entries.induct)
  case (1 directory files)
  then show ?case by simp
next
  case (2 directory name n rest files)
  show ?case
  proof (cases n)
    case File
    with 2 show ?thesis by (auto simp add: set_add_def)
  next
    case (Dir sub)
    with 2 show ?thesis by auto
  qed
qed

lemma captureInitialFiles_baseDir:
  "baseDir (fst (captureInitialFiles fs s directory)) = baseDir s"
  by (simp add: captureInitialFiles_def split: sum.splits)

lemma captureInitialFiles_grows:
  "set (initialFiles s) \<subseteq> set (initialFiles (fst (captureInitialFiles fs s directory)))"
  by (auto simp add: captureInitialFiles_def set_capture_entries split: sum.splits)

lemma captureInitialFiles_holds:
  assumes "captureInitialFiles fs s directory = (s', None)"
    and "readdirSync fs (baseDir s) directory = Inr entries"
  shows "set (files_in directory entries) \<subseteq> set (initialFiles s')"
  using assms by (auto simp add: captureInitialFiles_def set_capture_entries)

lemma capture_each_baseDir:
  "baseDir (fst (capture_each fs s dirs)) = baseDir s"
proof (induction dirs arbitrary: s)
  case Nil
  then show ?case by simp
next
  case (Cons dir dirs)
  obtain s1 r where c: "captureInitialFiles fs s dir = (s1, r)" by (cases "captureInitialFiles fs s dir")
  have b: "baseDir s1 = baseDir s" using captureInitialFiles_baseDir [of fs s dir] c by simp
  show ?case
  proof (cases r)
    case None
    with c b Cons.IH [of s1] show ?thesis by simp
  next
    case (Some e)
    with c b show ?thesis by simp
  qed
qed

lemma capture_each_grows:
  "set (initialFiles s) \<subseteq> set (initialFiles (fst (capture_each fs s dirs)))"
proof (induction dirs arbitrary: s)
  case Nil
  then show ?case by simp
next
  case (Cons dir dirs)
  obtain s1 r where c: "captureInitialFiles fs s dir = (s1, r)" by (cases "captureInitialFiles fs s dir")
  have g: "set (initialFiles s) \<subseteq> set (initialFiles s1)"
    using captureInitialFiles_grows [of s fs dir] c by simp
  show ?case
  proof (cases r)
    case None
    with c g Cons.IH [of s1] show ?thesis by auto
  next
    case (Some e)
    with c g show ?thesis by simp
  qed
qed

lemma capture_each_holds:
  assumes "capture_each fs s dirs = (s', None)"
    and "directory \<in> set dirs"
    and "readdirSync fs (baseDir s) directory = Inr entries"
  shows "set (files_in directory entries) \<subseteq> set (initialFiles s')"
  using assms
proof (induction dirs arbitrary: s)
  case Nil
  then show ?case by simp
next
  case (Cons dir dirs)
  obtain s1 r where c: "captureInitialFiles fs s dir = (s1, r)" by (cases "captureInitialFiles fs s dir")
  from Cons.prems(1) c have r: "r = None" and rest: "capture_each fs s1 dirs = (s', None)"
    by (cases r; simp)+
  have b: "baseDir s1 = baseDir s" using captureInitialFiles_baseDir [of fs s dir] c by simp
  show ?case
  proof (cases "directory = dir")
    case True
    have "set (files_in directory entries) \<subseteq> set (initialFiles s1)"
      using captureInitialFiles_holds [of fs s dir s1 entries] c r Cons.prems(3) True by simp
    moreover have "set (initialFiles s1) \<subseteq> set (initialFiles s')"
      using capture_each_grows [of s1 fs dirs] rest by simp
    ultimately show ?thesis by blast
  next
    case False
    with Cons.prems(2) have "directory \<in> set dirs" by simp
    with Cons.IH [of s1] rest b Cons.prems(3) show ?thesis by simp
  qed
qed

lemma watchDirectory_initialFiles:
  "initialFiles (fst (watchDirectory s directory)) = initialFiles s"
  by (simp add: watchDirectory_def)

lemma watch_each_initialFiles:
  "initialFiles (fst (watch_each s dirs)) = initialFiles s"
proof (induction dirs arbitrary: s)
  case Nil
  then show ?case by simp
next
  case (Cons dir dirs)
  show ?case
    using Cons.IH [of "fst (watchDirectory s dir)"] watchDirectory_initialFiles [of s dir]
    by (simp add: case_prod_unfold)
qed

lemma startWatching_initialFiles:
  "initialFiles (fst (startWatching fs s)) = initialFiles (fst (capture_each fs s (directories s)))"
proof -
  obtain s1 r where c: "capture_each fs s (directories s) = (s1, r)"
    by (cases "capture_each fs s (directories s)")
  show ?thesis
  proof (cases r)
    case None
    with c watch_each_initialFiles [of s1 "directories s"] show ?thesis
      by (simp add: startWatching_def case_prod_unfold)
  next
    case (Some e)
    with c show ?thesis by (simp add: startWatching_def)
  qed
qed

lemma startWatching_ok:
  assumes "startWatching fs s = (s', opened, None)"
  shows "\<exists>s1. capture_each fs s (directories s) = (s1, None) \<and> initialFiles s' = initialFiles s1"
proof -
  obtain s1 r where c: "capture_each fs s (directories s) = (s1, r)"
    by (cases "capture_each fs s (directories s)")
  from assms c have r: "r = None"
    by (cases r) (simp_all add: startWatching_def case_prod_unfold)
  have "initialFiles s' = initialFiles s1"
    using startWatching_initialFiles [of fs s] assms c by simp
  with c r show ?thesis by simp
qed

lemma ignoreDirectory_initialFiles:
  "initialFiles (fst (ignoreDirectory fs s dirs)) = initialFiles s"
  by (induction fs s dirs rule: ignoreDirectory.induct) (simp_all add: case_prod_unfold)

lemma unignoreDirectory_initialFiles:
  "initialFiles (fst (unignoreDirectory s dirs)) = initialFiles s"
  by (induction s dirs rule: unignoreDirectory.induct) (simp_all add: case_prod_unfold)

lemma setHandler_initialFiles:
  "initialFiles (fst (setHandler s directory eventType callback)) = initialFiles s"
  by (simp add: setHandler_def Let_def watchDirectory_def)

lemma perform_grows:
  "set (initialFiles s) \<subseteq> set (initialFiles (perform js s operation))"
proof (cases operation)
  case (StartWatching fs)
  then show ?thesis
    using capture_each_grows [of s fs "directories s"] by (simp add: startWatching_initialFiles)
next
  case StopWatching
  then show ?thesis by (simp add: stopWatching_def)
next
  case (SetHandler directory eventType callback)
  then show ?thesis by (simp add: setHandler_initialFiles)
next
  case (IgnoreDirectory fs dirs)
  then show ?thesis by (simp add: ignoreDirectory_initialFiles)
next
  case (UnignoreDirectory dirs)
  then show ?thesis by (simp add: unignoreDirectory_initialFiles)
next
  case (SetAllowedExtensions extensions)
  then show ?thesis by (simp add: setAllowedExtensions_def)
next
  case (SetMonitoredDirectories dirs)
  then show ?thesis by (simp add: setMonitoredDirectories_def)
qed

lemma perform_all_grows:
  "set (initialFiles s) \<subseteq> set (initialFiles (foldl (perform js) s operations))"
proof (induction operations arbitrary: s)
  case Nil
  then show ?case by simp
next
  case (Cons operation operations)
  have "set (initialFiles s) \<subseteq> set (initialFiles (perform js s operation))"
    by (rule perform_grows)
  also have "\<dots> \<subseteq> set (initialFiles (foldl (perform js) (perform js s operation) operations))"
    by (rule Cons.IH)
  finally show ?case by simp
qed

text \<open>
  C10. No sequence of public calls removes a path from \<open>initialFiles\<close>; \<open>stopWatching\<close>
  leaves it as it is; and when \<open>startWatching\<close> succeeds after a \<open>stopWatching\<close>, every
  path that was in the set before and every regular file now below a directory it
  snapshots is in the set, so that an \<open>add\<close> notification for it does nothing.
\<close>

theorem initialFiles_only_grows:
  "set (initialFiles s) \<subseteq> set (initialFiles (foldl (perform js) s operations))
   \<and> initialFiles (fst (stopWatching s)) = initialFiles s
   \<and> (startWatching fs (fst (stopWatching s)) = (s', opened, None)
        \<and> directory \<in> set (directories s)
        \<and> readdirSync fs (baseDir s) directory = Inr entries
        \<and> filePath \<in> set (initialFiles s) \<union> set (files_in directory entries)
      \<longrightarrow> filePath \<in> set (initialFiles s')
          \<and> fst (handleEvent js call s' Add watched filePath) = [])"
proof -
  let ?stopped = "fst (stopWatching s)"
  have stop: "initialFiles ?stopped = initialFiles s"
    by (simp add: stopWatching_def)
  have same_dirs: "directories ?stopped = directories s"
    by (simp add: stopWatching_def directories_def)
  have same_base: "baseDir ?stopped = baseDir s"
    by (simp add: stopWatching_def)
  have restart: "filePath \<in> set (initialFiles s')
          \<and> fst (handleEvent js call s' Add watched filePath) = []"
    if ok: "startWatching fs ?stopped = (s', opened, None)"
      and d: "directory \<in> set (directories s)"
      and r: "readdirSync fs (baseDir s) directory = Inr entries"
      and f: "filePath \<in> set (initialFiles s) \<union> set (files_in directory entries)"
  proof -
    from startWatching_ok [OF ok] obtain s1
      where c: "capture_each fs ?stopped (directories ?stopped) = (s1, None)"
        and i: "initialFiles s' = initialFiles s1"
      by blast
    have old: "set (initialFiles s) \<subseteq> set (initialFiles s')"
      using capture_each_grows [of ?stopped fs "directories ?stopped"] c i stop by simp
    have new: "set (files_in directory entries) \<subseteq> set (initialFiles s')"
      using capture_each_holds [of fs ?stopped "directories ?stopped" s1 directory entries]
        c d r i same_dirs same_base
      by simp
    from f old new have "filePath \<in> set (initialFiles s')" by blast
    then show ?thesis
      by (simp add: handleEvent_initial_drop)
  qed
  from perform_all_grows [of s js operations] stop restart show ?thesis by blast
qed

theorem initialFiles_only_grows_witness:
  "snd (snd (startWatching example_fs_later (fst (stopWatching example_session)))) = None
   \<and> ''/w'' \<in> set (directories example_session)
   \<and> readdirSync example_fs_later (baseDir example_session) ''/w''
       = Inr [(''a.js'', File), (''new.js'', File),
              (''test'', Dir [(''b.JS'', File), (''sub'', Dir [(''c.txt'', File)])])]
   \<and> ''/w/new.js'' \<notin> set (initialFiles example_session)
   \<and> ''/w/new.js'' \<in> set (initialFiles
         (fst (startWatching example_fs_later (fst (stopWatching example_session)))))
   \<and> fst (handleEvent example_js example_call
         (fst (startWatching example_fs_later (fst (stopWatching example_session))))
         Add ''/w'' ''/w/new.js'') = []"
proof -
  let ?again = "startWatching example_fs_later (fst (stopWatching example_session))"
  let ?entries = "[(''a.js'', File), (''new.js'', File),
                   (''test'', Dir [(''b.JS'', File), (''sub'', Dir [(''c.txt'', File)])])]"
  have ok: "snd (snd ?again) = None"
    by code_simp
  then have run: "?again = (fst ?again, fst (snd ?again), None)"
    by (metis prod.collapse)
  have dir: "''/w'' \<in> set (directories example_session)"
    by code_simp
  have listing: "readdirSync example_fs_later (baseDir example_session) ''/w'' = Inr ?entries"
    by code_simp
  have created: "''/w/new.js'' \<in> set (initialFiles example_session) \<union> set (files_in ''/w'' ?entries)"
    by code_simp
  have before: "''/w/new.js'' \<notin> set (initialFiles example_session)"
    by code_simp
  have after: "''/w/new.js'' \<in> set (initialFiles (fst ?again))
      \<and> fst (handleEvent example_js example_call (fst ?again) Add ''/w'' ''/w/new.js'') = []"
    using initialFiles_only_grows
      [of example_session example_js "[]" example_fs_later "fst ?again" "fst (snd ?again)" "''/w''"
          ?entries "''/w/new.js''" example_call "''/w''"]
      run dir listing created
    by blast
  show ?thesis
    using ok dir listing before after by blast
qed

section \<open>The ignore predicate\<close>

lemma ignored_loop_nonempty:
  "ignored_loop base dirs = (dirs \<noteq> [])"
  by (cases dirs) (simp_all add: truthy_def)

text \<open>
  C1. The predicate installed by \<open>watchDirectory\<close> does not look at the candidate path:
  it answers true for every path as soon as \<open>ignoredDirectories\<close> is not empty. With
  \<open>/w/test\<close> ignored, \<open>/w/a.js\<close>, which does not lie under \<open>/w/test\<close>, is ignored too,
  where the predicate of the specification answers false.
\<close>

theorem ignored_whenever_set_nonempty:
  "ignored s candidate = (ignoredDirectories s \<noteq> [])
   \<and> ignoredDirectories (fst (ignoreDirectory example_fs example_watcher [''/w/test''])) = [''/w/test'']
   \<and> lies_under ''/w/a.js'' ''/w/test'' = False
   \<and> spec_ignored (fst (ignoreDirectory example_fs example_watcher [''/w/test''])) ''/w/a.js'' = False
   \<and> ignored (fst (ignoreDirectory example_fs example_watcher [''/w/test''])) ''/w/a.js'' = True"
proof -
  let ?s = "fst (ignoreDirectory example_fs example_watcher [''/w/test''])"
  have general: "ignored s candidate = (ignoredDirectories s \<noteq> [])"
    by (simp add: ignored_def ignored_loop_nonempty)
  have set: "ignoredDirectories ?s = [''/w/test'']"
    by code_simp
  have outside: "lies_under ''/w/a.js'' ''/w/test'' = False"
    by code_simp
  have spec: "spec_ignored ?s ''/w/a.js'' = False"
    by code_simp
  have code: "ignored ?s ''/w/a.js'' = True"
    by code_simp
  show ?thesis
    using general set outside spec code by blast
qed

section \<open>Registering a handler\<close>

lemma setHandler_stores:
  "handler_at (fst (setHandler s directory eventType callback)) directory eventType = Some callback"
  by (simp add: setHandler_def Let_def watchDirectory_def handler_at_def)

lemma setHandler_watches:
  "map_of (watchers (fst (setHandler s directory eventType callback))) directory \<noteq> None"
  by (simp add: setHandler_def Let_def watchDirectory_def update_conv')

text \<open>
  C4. \<open>setHandler\<close> stores the callback and opens the watcher under the directory string
  exactly as it is given; it does not resolve it, where \<open>setMonitoredDirectories\<close> does.
  After \<open>setHandler('./test', ...)\<close> in \<open>/w\<close> the handler table and the registry hold
  \<open>./test\<close>, not \<open>/w/test\<close>; with \<open>./test\<close> also monitored, \<open>startWatching\<close> opens a
  second watcher on the same directory under \<open>/w/test\<close>, for which no handler is found.
\<close>

theorem setHandler_keeps_directory_as_given:
  "handler_at (fst (setHandler s directory eventType callback)) directory eventType = Some callback
   \<and> map_of (watchers (fst (setHandler s directory eventType callback))) directory \<noteq> None
   \<and> resolve ''/w'' [''/w'', ''./test''] = ''/w/test''
   \<and> handler_at (fst (setHandler example_watcher ''./test'' Change 1)) ''./test'' Change = Some 1
   \<and> handler_at (fst (setHandler example_watcher ''./test'' Change 1)) ''/w/test'' Change = None
   \<and> map fst (watchers (fst (setHandler example_watcher ''./test'' Change 1))) = [''./test'']
   \<and> monitoredDirectories example_readme = [''/w/test'']
   \<and> stat example_fs ''/w'' ''./test'' = stat example_fs ''/w'' ''/w/test''
   \<and> map fst (watchers (fst (startWatching example_fs example_readme))) = [''./test'', ''/w/test'']
   \<and> findHandler (fst (startWatching example_fs example_readme)) ''/w/test'' Change = None"
proof -
  let ?s = "fst (setHandler example_watcher ''./test'' Change 1)"
  have r: "resolve ''/w'' [''/w'', ''./test''] = ''/w/test''"
    by code_simp
  have given: "handler_at ?s ''./test'' Change = Some 1"
    by code_simp
  have resolved: "handler_at ?s ''/w/test'' Change = None"
    by code_simp
  have registry: "map fst (watchers ?s) = [''./test'']"
    by code_simp
  have sibling: "monitoredDirectories example_readme = [''/w/test'']"
    by code_simp
  have same: "stat example_fs ''/w'' ''./test'' = stat example_fs ''/w'' ''/w/test''"
    by code_simp
  have twice: "map fst (watchers (fst (startWatching example_fs example_readme)))
      = [''./test'', ''/w/test'']"
    by code_simp
  have lost: "findHandler (fst (startWatching example_fs example_readme)) ''/w/test'' Change = None"
    by code_simp
  show ?thesis
    using setHandler_stores [of s directory eventType callback]
      setHandler_watches [of s directory eventType callback]
      r given resolved registry sibling same twice lost
    by blast
qed

section \<open>The path passed to observers and handlers\<close>

text \<open>
  C5. For a file directly in the base directory the string passed as \<open>relativePath\<close> is
  the file's own path, not its directory: the pattern asks for a separator before the file
  name and \<open>path.relative\<close> leaves none. For a file one level down it is the directory.
\<close>

theorem relativePath_of_file_in_baseDir:
  "handleEvent js example_call example_watcher Change ''/w'' ''/w/a.js''
     = ([Emit Change ''/w'' ''a.js'' ''/w/a.js''], None)
   \<and> dirname ''/w/a.js'' = ''/w''
   \<and> handleEvent js example_call (fst (setHandler example_watcher ''/w'' Change 1)) Change ''/w'' ''/w/a.js''
     = ([Emit Change ''/w'' ''a.js'' ''/w/a.js'', Call 1 ''/w'' ''a.js'' ''/w/a.js'' Change], None)
   \<and> handleEvent js example_call example_watcher Change ''/w'' ''/w/test/b.JS''
     = ([Emit Change ''/w'' ''b.JS'' ''/w/test''], None)
   \<and> dirname ''/w/test/b.JS'' = ''/w/test''"
proof -
  have top: "handleEvent js example_call example_watcher Change ''/w'' ''/w/a.js''
     = ([Emit Change ''/w'' ''a.js'' ''/w/a.js''], None)"
    by code_simp
  have top_dir: "dirname ''/w/a.js'' = ''/w''"
    by code_simp
  have top_handler:
    "handleEvent js example_call (fst (setHandler example_watcher ''/w'' Change 1)) Change ''/w'' ''/w/a.js''
     = ([Emit Change ''/w'' ''a.js'' ''/w/a.js'', Call 1 ''/w'' ''a.js'' ''/w/a.js'' Change], None)"
    by code_simp
  have below: "handleEvent js example_call example_watcher Change ''/w'' ''/w/test/b.JS''
     = ([Emit Change ''/w'' ''b.JS'' ''/w/test''], None)"
    by code_simp
  have below_dir: "dirname ''/w/test/b.JS'' = ''/w/test''"
    by code_simp
  show ?thesis
    using top top_dir top_handler below below_dir by blast
qed

section \<open>A handler that throws\<close>

text \<open>
  C7, as stated, fails: the error of a throwing handler is not caught by \<open>handleEvent\<close>.
  With callback 2, which throws, registered on \<open>/w/test\<close>, a \<open>change\<close> of
  \<open>/w/test/b.JS\<close> is emitted, the handler is called, and the error leaves \<open>handleEvent\<close>.
\<close>

theorem handler_error_is_caught_counterexample:
  "findHandler example_throwing ''/w/test'' Change = Some 2
   \<and> example_call 2 ''/w/test'' ''b.JS'' ''/w/test'' Change = Some ''boom''
   \<and> handleEvent example_js example_call example_throwing Change ''/w/test'' ''/w/test/b.JS''
       = ([Emit Change ''/w/test'' ''b.JS'' ''/w/test'',
           Call 2 ''/w/test'' ''b.JS'' ''/w/test'' Change],
          Some (HandlerError ''boom''))"
proof -
  have h: "findHandler example_throwing ''/w/test'' Change = Some 2"
    by code_simp
  have t: "example_call 2 ''/w/test'' ''b.JS'' ''/w/test'' Change = Some ''boom''"
    by code_simp
  have e: "handleEvent example_js example_call example_throwing Change ''/w/test'' ''/w/test/b.JS''
       = ([Emit Change ''/w/test'' ''b.JS'' ''/w/test'',
           Call 2 ''/w/test'' ''b.JS'' ''/w/test'' Change],
          Some (HandlerError ''boom''))"
    by code_simp
  from h t e show ?thesis by blast
qed

text \<open>
  C7, amended. For an event that survives both filters, when the resolved handler throws
  \<open>e\<close>, \<open>handleEvent\<close> has emitted the generic event and called the handler once, and
  \<open>e\<close> leaves \<open>handleEvent\<close> uncaught; nothing else is done: no warning, no error
  event, no watcher closed.
\<close>

theorem handler_error_propagates:
  "(allowedExtensions s = [] \<or> toLowerCase js (extname (basename filePath)) \<in> set (allowedExtensions s))
   \<and> (filePath \<notin> set (initialFiles s) \<or> eventType \<noteq> Add)
   \<and> replace_trailing_filename js (relative (baseDir s) (baseDir s) filePath) (basename filePath)
        = Inr relativePath
   \<and> findHandler s directory eventType = Some handler
   \<and> call handler directory (basename filePath) (baseDir s @ ''/'' @ relativePath) eventType = Some e
   \<longrightarrow> handleEvent js call s eventType directory filePath
        = ([Emit eventType directory (basename filePath) (baseDir s @ ''/'' @ relativePath),
            Call handler directory (basename filePath) (baseDir s @ ''/'' @ relativePath) eventType],
           Some (HandlerError e))"
  by (auto simp add: handleEvent_def Let_def)

theorem handler_error_propagates_witness:
  "allowedExtensions example_throwing = []
   \<and> ''/w/test/b.JS'' \<notin> set (initialFiles example_throwing)
   \<and> replace_trailing_filename example_js (relative ''/w'' ''/w'' ''/w/test/b.JS'') ''b.JS''
       = Inr ''test''
   \<and> findHandler example_throwing ''/w/test'' Change = Some 2
   \<and> example_call 2 ''/w/test'' ''b.JS'' ''/w/test'' Change = Some ''boom''
   \<and> handleEvent example_js example_call example_throwing Change ''/w/test'' ''/w/test/b.JS''
       = ([Emit Change ''/w/test'' ''b.JS'' ''/w/test'',
           Call 2 ''/w/test'' ''b.JS'' ''/w/test'' Change],
          Some (HandlerError ''boom''))
   \<and> handleEvent example_js example_call example_throwing Change ''/w/test'' ''/w/test/file(1).txt''
       = ([Emit Change ''/w/test'' ''file(1).txt'' ''/w/test/file(1).txt'',
           Call 2 ''/w/test'' ''file(1).txt'' ''/w/test/file(1).txt'' Change],
          Some (HandlerError ''boom''))"
proof -
  have a: "allowedExtensions example_throwing = []"
    by code_simp
  have i: "''/w/test/b.JS'' \<notin> set (initialFiles example_throwing)"
    by code_simp
  have i2: "''/w/test/file(1).txt'' \<notin> set (initialFiles example_throwing)"
    by code_simp
  have b: "baseDir example_throwing = ''/w''"
    by code_simp
  have n: "basename ''/w/test/b.JS'' = ''b.JS''"
    by code_simp
  have n2: "basename ''/w/test/file(1).txt'' = ''file(1).txt''"
    by code_simp
  have r: "replace_trailing_filename example_js (relative ''/w'' ''/w'' ''/w/test/b.JS'') ''b.JS''
      = Inr ''test''"
    by code_simp
  have r2: "replace_trailing_filename example_js (relative ''/w'' ''/w'' ''/w/test/file(1).txt'')
      ''file(1).txt'' = Inr ''test/file(1).txt''"
    by code_simp
  have h: "findHandler example_throwing ''/w/test'' Change = Some 2"
    by code_simp
  have t: "example_call 2 ''/w/test'' ''b.JS'' ''/w/test'' Change = Some ''boom''"
    by code_simp
  have t2: "example_call 2 ''/w/test'' ''file(1).txt'' ''/w/test/file(1).txt'' Change = Some ''boom''"
    by code_simp
  have plain: "handleEvent example_js example_call example_throwing Change ''/w/test'' ''/w/test/b.JS''
       = ([Emit Change ''/w/test'' ''b.JS'' ''/w/test'',
           Call 2 ''/w/test'' ''b.JS'' ''/w/test'' Change],
          Some (HandlerError ''boom''))"
    using handler_error_propagates
      [of example_throwing example_js "''/w/test/b.JS''" Change "''test''" "''/w/test''" 2
          example_call "''boom''"]
      a i b n r h t
    by simp
  have odd: "handleEvent example_js example_call example_throwing Change ''/w/test'' ''/w/test/file(1).txt''
       = ([Emit Change ''/w/test'' ''file(1).txt'' ''/w/test/file(1).txt'',
           Call 2 ''/w/test'' ''file(1).txt'' ''/w/test/file(1).txt'' Change],
          Some (HandlerError ''boom''))"
    using handler_error_propagates
      [of example_throwing example_js "''/w/test/file(1).txt''" Change "''test/file(1).txt''"
          "''/w/test''" 2 example_call "''boom''"]
      a i2 b n2 r2 h t2
    by simp
  from a i r h t plain odd show ?thesis by blast
qed

section \<open>Ignoring and unignoring\<close>

lemma ignoreDirectory_set:
  "set (ignoredDirectories (fst (ignoreDirectory fs s dirs)))
     = set (ignoredDirectories s) \<union> {dir \<in> set dirs. existsSync fs (baseDir s) dir}"
proof (induction fs s dirs rule: ignoreDirectory.induct)
  case (1 fs s)
  then show ?case by simp
next
  case (2 fs s dir rest)
  show ?case
  proof (cases "existsSync fs (baseDir s) dir")
    case True
    with 2 show ?thesis by (auto simp add: set_add_def)
  next
    case False
    with 2 show ?thesis by (auto simp add: case_prod_unfold)
  qed
qed

text \<open>
  C9, as stated, fails: \<open>ignoreDirectory\<close> of a directory that does not exist warns and
  does not record it.
\<close>

theorem missing_directory_is_stored_counterexample:
  "\<not> existsSync example_fs (baseDir example_watcher) ''/nope''
   \<and> ''/nope'' \<notin> set (ignoredDirectories (fst (ignoreDirectory example_fs example_watcher [''/nope''])))
   \<and> snd (ignoreDirectory example_fs example_watcher [''/nope''])
       = [Warn ''Directory /nope doesr not exist, ignoring it will not work.'']"
proof -
  have a: "\<not> existsSync example_fs (baseDir example_watcher) ''/nope''"
    by code_simp
  have b: "''/nope'' \<notin> set (ignoredDirectories (fst (ignoreDirectory example_fs example_watcher [''/nope''])))"
    by code_simp
  have c: "snd (ignoreDirectory example_fs example_watcher [''/nope''])
       = [Warn ''Directory /nope doesr not exist, ignoring it will not work.'']"
    by code_simp
  from a b c show ?thesis by blast
qed

text \<open>
  C9, amended. \<open>ignoreDirectory\<close> of a directory that does not exist reports a warning
  and leaves the watcher, its ignore set included, unchanged; in general the ignore set
  gains exactly the arguments that exist. \<open>unignoreDirectory\<close> of a directory that is not
  in the ignore set reports a warning and leaves the watcher unchanged.
\<close>

theorem ignore_warnings:
  "(\<not> existsSync fs (baseDir s) dir
      \<longrightarrow> ignoreDirectory fs s [dir]
          = (s, [Warn (''Directory '' @ dir @ '' doesr not exist, ignoring it will not work.'')]))
   \<and> (dir \<notin> set (ignoredDirectories s)
      \<longrightarrow> unignoreDirectory s [dir] = (s, [Warn (''Directory '' @ dir @ '' is not ignored.'')]))
   \<and> set (ignoredDirectories (fst (ignoreDirectory fs s dirs)))
       = set (ignoredDirectories s) \<union> {d \<in> set dirs. existsSync fs (baseDir s) d}"
  using ignoreDirectory_set [of fs s dirs] by simp

theorem ignore_warnings_witness:
  "\<not> existsSync example_fs (baseDir example_watcher) ''/nope''
   \<and> ignoreDirectory example_fs example_watcher [''/nope'']
       = (example_watcher, [Warn ''Directory /nope doesr not exist, ignoring it will not work.''])
   \<and> \<not> existsSync example_fs (baseDir example_watcher) []
   \<and> ignoreDirectory example_fs example_watcher [[]]
       = (example_watcher, [Warn ''Directory  doesr not exist, ignoring it will not work.''])
   \<and> \<not> existsSync example_fs (baseDir example_watcher) ''/w/a.js/''
   \<and> ignoreDirectory example_fs example_watcher [''/w/a.js/'']
       = (example_watcher, [Warn ''Directory /w/a.js/ doesr not exist, ignoring it will not work.''])
   \<and> ''test'' \<notin> set (ignoredDirectories example_watcher)
   \<and> unignoreDirectory example_watcher [''test'']
       = (example_watcher, [Warn ''Directory test is not ignored.''])
   \<and> set (ignoredDirectories (fst (ignoreDirectory example_fs example_watcher [''/nope'', ''/w/test''])))
       = {''/w/test''}"
proof -
  have a: "\<not> existsSync example_fs (baseDir example_watcher) ''/nope''"
    by code_simp
  have a2: "\<not> existsSync example_fs (baseDir example_watcher) []"
    by code_simp
  have a3: "\<not> existsSync example_fs (baseDir example_watcher) ''/w/a.js/''"
    by code_simp
  have e: "existsSync example_fs (baseDir example_watcher) ''/w/test''"
    by code_simp
  have n: "''test'' \<notin> set (ignoredDirectories example_watcher)"
    by code_simp
  have z: "ignoredDirectories example_watcher = []"
    by code_simp
  have i: "ignoreDirectory example_fs example_watcher [''/nope'']
       = (example_watcher, [Warn ''Directory /nope doesr not exist, ignoring it will not work.''])"
    using ignore_warnings [of example_fs example_watcher "''/nope''"] a by simp
  have i2: "ignoreDirectory example_fs example_watcher [[]]
       = (example_watcher, [Warn ''Directory  doesr not exist, ignoring it will not work.''])"
    using ignore_warnings [of example_fs example_watcher "[]"] a2 by simp
  have i3: "ignoreDirectory example_fs example_watcher [''/w/a.js/'']
       = (example_watcher, [Warn ''Directory /w/a.js/ doesr not exist, ignoring it will not work.''])"
    using ignore_warnings [of example_fs example_watcher "''/w/a.js/''"] a3 by simp
  have u: "unignoreDirectory example_watcher [''test'']
       = (example_watcher, [Warn ''Directory test is not ignored.''])"
    using ignore_warnings [of example_fs example_watcher "''test''"] n by simp
  have s: "set (ignoredDirectories (fst (ignoreDirectory example_fs example_watcher [''/nope'', ''/w/test''])))
       = {''/w/test''}"
    using ignore_warnings [of example_fs example_watcher "''/nope''" "[''/nope'', ''/w/test'']"] a e z
    by auto
  from a i a2 i2 a3 i3 n u s show ?thesis by blast
qed

end
